theory Spec2Isabelle
  imports Complex_Main "HOL-Library.AList"
begin

section \<open>Shared types: commands, replies, errors\<close>

text \<open>
  A rule of the \<open>nat\<close> table's \<open>PREROUTING\<close> chain as the port-hopping script writes
  it: \<^verbatim>\<open>[-i IFACE] -p udp --dport LO:HI -j REDIRECT --to-port PORT\<close>. The interface is
  \<open>None\<close> for the form without \<^verbatim>\<open>-i\<close>.
\<close>

datatype nat_rule = Redirect "string option" nat nat nat

datatype family = V4 | V6

text \<open>
  The lines of the port-hopping script:
  \<^item> \<open>IptDelete f r\<close>: \<^verbatim>\<open>iptables -t nat -D PREROUTING R 2>/dev/null || true\<close>
    (\<^verbatim>\<open>ip6tables\<close> for \<open>V6\<close>);
  \<^item> \<open>IptAppend f r\<close>: \<^verbatim>\<open>iptables -t nat -A PREROUTING R\<close>;
  \<^item> \<open>UfwAllow lo hi\<close>: the guarded \<^verbatim>\<open>ufw allow LO:HI/udp 2>/dev/null || true\<close>;
  \<^item> \<open>SaveRules\<close>: the \<^verbatim>\<open>netfilter-persistent save\<close> / \<^verbatim>\<open>iptables-save\<close> block;
  \<^item> \<open>Echo lo hi port\<close>: \<^verbatim>\<open>echo "Port hopping: LO-HI -> PORT"\<close>.
\<close>

datatype fw_cmd =
    IptDelete family nat_rule
  | IptAppend family nat_rule
  | UfwAllow nat nat
  | SaveRules
  | Echo nat nat nat

text \<open>
  A command handed to \<open>client.exec\<close> is one of the fixed shell templates of the source;
  each constructor stands for the literal text given beside it (paths and ports are the
  interpolated values, a path being one shell word):
  \<^item> \<open>CpBackup src dst\<close>: \<^verbatim>\<open>cp SRC DST 2>/dev/null || true\<close>
  \<^item> \<open>HysteriaCheck p\<close>: \<^verbatim>\<open>/usr/local/bin/hysteria check -c P 2>&1 || true\<close>
  \<^item> \<open>MvRestore src dst\<close>: \<^verbatim>\<open>mv SRC DST\<close>
  \<^item> \<open>RestartLoud\<close>: \<^verbatim>\<open>systemctl restart hysteria-server 2>&1 || systemctl restart hysteria 2>&1\<close>
  \<^item> \<open>IsActive\<close>: \<^verbatim>\<open>systemctl is-active hysteria-server 2>/dev/null || systemctl is-active hysteria 2>/dev/null\<close>
  \<^item> \<open>Journal\<close>: \<^verbatim>\<open>journalctl -u hysteria-server -n 10 --no-pager 2>/dev/null || journalctl -u hysteria -n 10 --no-pager 2>/dev/null\<close>
  \<^item> \<open>Script cs\<close>: the port-hopping script, line by line
  \<^item> \<open>StatsScript\<close>: the five-section \<^verbatim>\<open>echo "===CPU===" ...\<close> script of \<open>getSystemStats\<close>
  \<^item> \<open>Shell s\<close>: any other command line.
\<close>

datatype command =
    CpBackup string string
  | HysteriaCheck string
  | MvRestore string string
  | RestartLoud
  | IsActive
  | Journal
  | Script "fw_cmd list"
  | StatsScript
  | Shell string

text \<open>
  What the remote side does with a command. Either the channel cannot be opened (the
  callback of \<open>client.exec\<close> gets \<open>err\<close>), or a stream is handed over that emits
  \<open>data\<close> events on stdout, \<open>data\<close> events on stderr and at most one effective
  \<open>close\<close> event carrying the exit code (\<open>None\<close> when the remote process was killed
  by a signal and ssh2 passes no code).
\<close>

datatype stream_event =
    StdoutData string
  | StderrData string
  | StreamClose "int option"

datatype exec_reply =
    ExecRefused string
  | ExecStarted "stream_event list"

record ExecResult =
  code :: "int option"
  stdout :: string
  stderr :: string

text \<open>
  The JavaScript errors the two services reject with. \<open>SSHNotConnected\<close> is
  the error \<open>NodeSSH\<close> raises when it has no client, \<open>TransportErr m\<close> is an \<open>err\<close> object passed on from
  ssh2, \<open>ExecTimeout ms cmd\<close> is \<^verbatim>\<open>new Error(`Exec timeout (${execTimeout}ms): ...`)\<close>,
  \<open>ConnectionTimeout ms\<close> is \<^verbatim>\<open>new Error(`Connection timeout (${connectTimeout}ms)`)\<close> and
  \<open>NoCredentials\<close> is \<^verbatim>\<open>new Error('SSH: no key or password')\<close>.
\<close>

datatype error =
    SSHNotConnected
  | TransportErr string
  | ExecTimeout nat command
  | ConnectionTimeout nat
  | NoCredentials

text \<open>A promise is settled one way or the other, or stays pending for ever.\<close>

datatype 'a promise = Resolved 'a | Rejected error | Pending

section \<open>Transport session: \<open>NodeSSH.exec\<close>\<close>

text \<open>
  The listeners installed on the stream: \<open>data\<close> appends to \<open>stdout\<close>, \<open>stderr.data\<close>
  appends to \<open>stderr\<close>, \<open>close\<close> resolves with the two strings as they are at that moment.
  Events after the first \<open>close\<close> cannot change the settled promise. A stream that never
  closes leaves the promise pending.
\<close>

fun collect :: "stream_event list \<Rightarrow> string \<Rightarrow> string \<Rightarrow> ExecResult promise" where
  "collect [] out err = Pending"
| "collect (StdoutData d # evs) out err = collect evs (out @ d) err"
| "collect (StderrData d # evs) out err = collect evs out (err @ d)"
| "collect (StreamClose c # evs) out err = Resolved \<lparr>code = c, stdout = out, stderr = err\<rparr>"





text \<open>The text a stream has delivered on each of its two channels before it closes.\<close>

fun stdout_before_close :: "stream_event list \<Rightarrow> string" where
  "stdout_before_close [] = []"
| "stdout_before_close (StdoutData d # evs) = d @ stdout_before_close evs"
| "stdout_before_close (StderrData d # evs) = stdout_before_close evs"
| "stdout_before_close (StreamClose c # evs) = []"

fun stderr_before_close :: "stream_event list \<Rightarrow> string" where
  "stderr_before_close [] = []"
| "stderr_before_close (StdoutData d # evs) = stderr_before_close evs"
| "stderr_before_close (StderrData d # evs) = d @ stderr_before_close evs"
| "stderr_before_close (StreamClose c # evs) = []"

fun first_close :: "stream_event list \<Rightarrow> int option option" where
  "first_close [] = None"
| "first_close (StreamClose c # evs) = Some c"
| "first_close (_ # evs) = first_close evs"


section \<open>String primitives of the host language\<close>











section \<open>Numbers of the host language\<close>












section \<open>Remote operations of \<open>NodeSSH\<close>\<close>

text \<open>
  The fields of a node record that the two services read. An absent string field is the
  empty string and an absent port is \<open>0\<close>: JavaScript treats both the absent and the
  empty/zero value as falsy, which is all the code tests.
\<close>

record node =
  node_id :: string
  node_name :: string
  node_ip :: string
  ssh_privateKey :: string
  ssh_password :: string
  paths_config :: string
  node_port :: nat








subsection \<open>\<open>getSystemStats\<close>\<close>

text \<open>
  The parser of the statistics output. The records keep the integer fields (core count,
  memory and disk); the load averages and the uptime, which the source reads with
  \<open>parseFloat\<close>, are not part of the model, but their sections are tracked as the
  loop tracks them.
\<close>

record usage =
  total_bytes :: int
  used :: int
  free :: int
  percent :: int

record sysstats =
  cores :: int
  mem :: usage
  disk :: usage









section \<open>The remote node\<close>

subsection \<open>Files and the proxy service\<close>






subsection \<open>The packet filter\<close>








section \<open>Connection pool: \<open>SSHPool\<close>\<close>

subsection \<open>State\<close>

text \<open>
  The settings of the pool; the constructor replaces every absent or zero option by its
  default (\<open>options.x || default\<close>).
\<close>

record pool_config =
  maxIdleTime :: int
  keepAliveInterval :: nat
  connectTimeout :: nat
  maxRetries :: nat
  cleanupInterval :: nat

definition SSHPool_config :: "pool_config \<Rightarrow> pool_config" where
  "SSHPool_config options =
     \<lparr>maxIdleTime = (if maxIdleTime options = 0 then 2 * 60 * 1000 else maxIdleTime options),
      keepAliveInterval =
        (if keepAliveInterval options = 0 then 30000 else keepAliveInterval options),
      connectTimeout = (if connectTimeout options = 0 then 15000 else connectTimeout options),
      maxRetries = (if maxRetries options = 0 then 2 else maxRetries options),
      cleanupInterval = (if cleanupInterval options = 0 then 30000 else cleanupInterval options)\<rparr>"

text \<open>The settings of the exported singleton.\<close>

definition singleton_config :: pool_config where
  "singleton_config =
     SSHPool_config \<lparr>maxIdleTime = 2 * 60 * 1000, keepAliveInterval = 30 * 1000,
                     connectTimeout = 15 * 1000, maxRetries = 2, cleanupInterval = 30 * 1000\<rparr>"

text \<open>
  An ssh2 client object, as far as the pool looks at it: whether
  \<open>client._sock?.writable\<close> is truthy, whether \<open>end()\<close> has been called on it, the node
  its listeners were installed for (the \<open>node\<close> of the enclosing \<open>createConnection\<close>
  call), and whether it has emitted \<open>error\<close>, \<open>close\<close> or \<open>end\<close>.
\<close>

record client_state =
  writable :: bool
  ended :: bool
  made_for :: node
  reported :: bool

text \<open>The \<open>meta\<close> object stored in the registry; \<open>client\<close> is a reference.\<close>

record conn_meta =
  client :: nat
  nodeId :: string
  nodeName :: string
  host :: string
  createdAt :: int
  lastUsed :: int
  useCount :: nat

text \<open>
  The pool and what it touches: the registry \<open>this.connections\<close>, a \<open>Map\<close> in insertion
  order; the store of the client objects created so far; the number of \<open>connect\<close> calls
  made; the delays waited before retries; and the reading of \<open>Date.now()\<close>.
\<close>

record pool =
  connections :: "(string \<times> conn_meta) list"
  clients :: "nat \<Rightarrow> client_state"
  nclients :: nat
  connects :: nat
  sleeps :: "nat list"
  clock :: int

definition dummy_node :: node where
  "dummy_node = \<lparr>node_id = [], node_name = [], node_ip = [], ssh_privateKey = [],
                  ssh_password = [], paths_config = [], node_port = 0\<rparr>"

definition empty_pool :: pool where
  "empty_pool =
     \<lparr>connections = [],
      clients = (\<lambda>_. \<lparr>writable = False, ended = False, made_for = dummy_node, reported = False\<rparr>),
      nclients = 0, connects = 0, sleeps = [], clock = 0\<rparr>"

subsection \<open>Operations\<close>

definition new_client :: "node \<Rightarrow> pool \<Rightarrow> pool" where
  "new_client n p =
     p\<lparr>clients := (clients p)(nclients p :=
          \<lparr>writable = False, ended = False, made_for = n, reported = False\<rparr>),
       nclients := Suc (nclients p)\<rparr>"

definition end_client :: "nat \<Rightarrow> pool \<Rightarrow> pool" where
  "end_client c p = p\<lparr>clients := (clients p)(c := (clients p c)\<lparr>ended := True\<rparr>)\<rparr>"

definition removeConnection :: "string \<Rightarrow> pool \<Rightarrow> pool" where
  "removeConnection nid p =
     (case map_of (connections p) nid of
        None \<Rightarrow> p
      | Some conn \<Rightarrow>
          (end_client (client conn) p)\<lparr>connections := AList.delete nid (connections p)\<rparr>)"

text \<open>
  The listeners that \<open>createConnection\<close> installs on client \<open>c\<close> for node \<open>n\<close>.
  \<open>ready\<close> stores the new \<open>meta\<close>; \<open>error\<close> deletes the registry entry of the node (and
  then decides about a retry, below); \<open>close\<close> and \<open>end\<close> call \<open>removeConnection\<close>.
\<close>

definition nodeName_of :: "node \<Rightarrow> string" where
  "nodeName_of n = (if node_name n = [] then node_id n else node_name n)"

definition on_ready :: "node \<Rightarrow> nat \<Rightarrow> pool \<Rightarrow> pool" where
  "on_ready n c p =
     p\<lparr>connections :=
         AList.update (node_id n)
           \<lparr>client = c, nodeId = node_id n, nodeName = nodeName_of n, host = node_ip n,
            createdAt = clock p, lastUsed = clock p, useCount = 1\<rparr>
           (connections p)\<rparr>"

definition on_error :: "node \<Rightarrow> pool \<Rightarrow> pool" where
  "on_error n p = p\<lparr>connections := AList.delete (node_id n) (connections p)\<rparr>"

definition on_close :: "node \<Rightarrow> pool \<Rightarrow> pool" where
  "on_close n p = removeConnection (node_id n) p"

definition on_end :: "node \<Rightarrow> pool \<Rightarrow> pool" where
  "on_end n p = removeConnection (node_id n) p"

text \<open>
  What the transport does to a connect attempt: it emits \<open>ready\<close> with an open socket,
  or \<open>error\<close>, before the pool's own timer of \<open>connectTimeout\<close> expires, or nothing
  happens until then. The network is a function from the client (in order of creation)
  to the outcome of its attempt.
\<close>

datatype conn_outcome = ConnReady | ConnError string | ConnSilent

definition sock_open :: "nat \<Rightarrow> pool \<Rightarrow> pool" where
  "sock_open c p = p\<lparr>clients := (clients p)(c := (clients p c)\<lparr>writable := True\<rparr>)\<rparr>"

definition mark_reported :: "nat \<Rightarrow> pool \<Rightarrow> pool" where
  "mark_reported c p = p\<lparr>clients := (clients p)(c := (clients p c)\<lparr>reported := True\<rparr>)\<rparr>"

text \<open>
  The synchronous start of \<open>createConnection\<close>: a client object is constructed, and
  unless the node has neither key nor password, \<open>connect\<close> is called on it.
\<close>

definition has_credentials :: "node \<Rightarrow> bool" where
  "has_credentials n = (ssh_privateKey n \<noteq> [] \<or> ssh_password n \<noteq> [])"

definition begin_connect :: "node \<Rightarrow> pool \<Rightarrow> pool" where
  "begin_connect n p =
     (if has_credentials n then (new_client n p)\<lparr>connects := Suc (connects p)\<rparr>
      else new_client n p)"

text \<open>
  \<open>createConnection(node, retryCount)\<close> up to the settlement of its promise: \<open>Inr c\<close>
  resolves with client \<open>c\<close>, \<open>Inl e\<close> rejects. A node without key and password is
  rejected before \<open>connect\<close> is called. The expiry of the timer ends the client and
  rejects; only the \<open>error\<close> listener retries, after a delay of
  \<open>Math.pow(2, retryCount) * 500\<close>.
\<close>

function createConnection ::
  "pool_config \<Rightarrow> (nat \<Rightarrow> conn_outcome) \<Rightarrow> node \<Rightarrow> nat \<Rightarrow> pool \<Rightarrow> (error + nat) \<times> pool" where
  "createConnection cfg net n retryCount p =
     (if \<not> has_credentials n then (Inl NoCredentials, begin_connect n p)
      else
        (case net (nclients p) of
           ConnReady \<Rightarrow>
             (Inr (nclients p), on_ready n (nclients p) (sock_open (nclients p) (begin_connect n p)))
         | ConnError err \<Rightarrow>
             (if retryCount < maxRetries cfg
              then createConnection cfg net n (retryCount + 1)
                     ((on_error n (mark_reported (nclients p) (begin_connect n p)))
                      \<lparr>sleeps := sleeps p @ [2 ^ retryCount * 500]\<rparr>)
              else (Inl (TransportErr err),
                    on_error n (mark_reported (nclients p) (begin_connect n p))))
         | ConnSilent \<Rightarrow>
             (Inl (ConnectionTimeout (connectTimeout cfg)),
              end_client (nclients p) (begin_connect n p))))"
  by pat_completeness auto
termination
  by (relation "measure (\<lambda>(cfg, net, n, retryCount, p). maxRetries cfg - retryCount)") auto

declare createConnection.simps [simp del]

text \<open>\<open>getConnection(node)\<close>: reuse a live entry, evict a dead one, otherwise create.\<close>

definition reuse :: "node \<Rightarrow> conn_meta \<Rightarrow> pool \<Rightarrow> pool" where
  "reuse n existing p =
     p\<lparr>connections :=
         AList.update (node_id n)
           (existing\<lparr>lastUsed := clock p, useCount := useCount existing + 1\<rparr>)
           (connections p)\<rparr>"

definition getConnection ::
  "pool_config \<Rightarrow> (nat \<Rightarrow> conn_outcome) \<Rightarrow> node \<Rightarrow> pool \<Rightarrow> (error + nat) \<times> pool" where
  "getConnection cfg net n p =
     (case map_of (connections p) (node_id n) of
        Some existing \<Rightarrow>
          (if writable (clients p (client existing))
           then (Inr (client existing), reuse n existing p)
           else createConnection cfg net n 0 (removeConnection (node_id n) p))
      | None \<Rightarrow> createConnection cfg net n 0 p)"

text \<open>
  \<open>exec(node, command, options)\<close> of the pool. The pooled client answers a command with
  a reply and the time, in milliseconds after the call, at which the callback reports the
  refusal or the stream closes; the timer of \<open>options.timeout || 30000\<close> milliseconds
  settles the promise first when that time is not earlier. The pool returned is the one
  left when every callback has run: a refusal evicts the node's entry even when it is
  reported after the timer has already rejected.
\<close>

definition pool_exec ::
  "pool_config \<Rightarrow> (nat \<Rightarrow> conn_outcome) \<Rightarrow> (nat \<Rightarrow> command \<Rightarrow> exec_reply \<times> nat) \<Rightarrow>
   node \<Rightarrow> command \<Rightarrow> nat \<Rightarrow> pool \<Rightarrow> ExecResult promise \<times> pool" where
  "pool_exec cfg net answer n command timeout p =
     (case getConnection cfg net n p of
        (Inl e, p1) \<Rightarrow> (Rejected e, p1)
      | (Inr c, p1) \<Rightarrow>
          (let execTimeout = (if timeout = 0 then 30000 else timeout) in
           case answer c command of
             (ExecRefused err, t) \<Rightarrow>
               (if t < execTimeout then Rejected (TransportErr err)
                else Rejected (ExecTimeout execTimeout command),
                removeConnection (node_id n) p1)
           | (ExecStarted evs, t) \<Rightarrow>
               (if t < execTimeout \<and> first_close evs \<noteq> None then collect evs [] []
                else Rejected (ExecTimeout execTimeout command),
                p1)))"

text \<open>\<open>cleanup()\<close>: one sweep over the registry with one reading of the clock.\<close>

definition cleanup :: "pool_config \<Rightarrow> pool \<Rightarrow> pool" where
  "cleanup cfg p =
     fold (\<lambda>entry q.
             if clock p - lastUsed (snd entry) > maxIdleTime cfg
             then removeConnection (fst entry) q else q)
          (connections p) p"

text \<open>\<open>closeAll()\<close>: end every client, clear the registry.\<close>

definition closeAll :: "pool \<Rightarrow> pool" where
  "closeAll p =
     (fold (\<lambda>entry q. end_client (client (snd entry)) q) (connections p) p)
       \<lparr>connections := []\<rparr>"


subsection \<open>The pool as an event-driven system\<close>

text \<open>
  Between two calls the event loop delivers transport events to the listeners. One step
  of the pool is one of:
  \<^item> \<open>Connect n\<close>: the synchronous start of a \<open>createConnection\<close> for node \<open>n\<close> (from
    \<open>getConnection\<close> or from the retry of the \<open>error\<close> listener);
  \<^item> \<open>Ready c\<close>, \<open>Error c\<close>, \<open>Close c\<close>, \<open>End c\<close>: client \<open>c\<close> emits the event and its
    listener runs; ssh2 emits \<open>ready\<close> only on a client that has not yet reported
    \<open>error\<close>, \<open>close\<close> or \<open>end\<close>;
  \<^item> \<open>SockDown c\<close>: the socket of \<open>c\<close> stops being writable;
  \<^item> \<open>Reuse n\<close>: \<open>getConnection\<close> finds a live entry for \<open>n\<close>;
  \<^item> \<open>Evict k\<close>: \<open>removeConnection(k)\<close>, called for a dead entry, after an exec or SFTP
    error, or by \<open>close(nodeId)\<close>;
  \<^item> \<open>ConnTimer c\<close>: the connect timer of \<open>c\<close> expires;
  \<^item> \<open>Sweep\<close>, \<open>Shutdown\<close>: \<open>cleanup()\<close> and \<open>closeAll()\<close>;
  \<^item> \<open>Tick d\<close>: the clock advances.
  \<open>None\<close> marks a step that cannot happen in the state.
\<close>

datatype pool_event =
    Connect node
  | Ready nat
  | Error nat
  | Close nat
  | End nat
  | SockDown nat
  | Reuse node
  | Evict string
  | ConnTimer nat
  | Sweep
  | Shutdown
  | Tick int

fun apply_event :: "pool_config \<Rightarrow> pool_event \<Rightarrow> pool \<Rightarrow> pool option" where
  "apply_event cfg (Connect n) p = Some (begin_connect n p)"
| "apply_event cfg (Ready c) p =
     (if c < nclients p \<and> \<not> reported (clients p c)
      then Some (on_ready (made_for (clients p c)) c (sock_open c p)) else None)"
| "apply_event cfg (Error c) p =
     (if c < nclients p
      then Some (on_error (made_for (clients p c)) (mark_reported c p)) else None)"
| "apply_event cfg (Close c) p =
     (if c < nclients p
      then Some (on_close (made_for (clients p c)) (mark_reported c p)) else None)"
| "apply_event cfg (End c) p =
     (if c < nclients p
      then Some (on_end (made_for (clients p c)) (mark_reported c p)) else None)"
| "apply_event cfg (SockDown c) p =
     (if c < nclients p
      then Some (p\<lparr>clients := (clients p)(c := (clients p c)\<lparr>writable := False\<rparr>)\<rparr>)
      else None)"
| "apply_event cfg (Reuse n) p =
     (case map_of (connections p) (node_id n) of
        None \<Rightarrow> None
      | Some existing \<Rightarrow>
          if writable (clients p (client existing)) then Some (reuse n existing p) else None)"
| "apply_event cfg (Evict k) p = Some (removeConnection k p)"
| "apply_event cfg (ConnTimer c) p =
     (if c < nclients p then Some (end_client c p) else None)"
| "apply_event cfg Sweep p = Some (cleanup cfg p)"
| "apply_event cfg Shutdown p = Some (closeAll p)"
| "apply_event cfg (Tick d) p = Some (p\<lparr>clock := clock p + d\<rparr>)"

fun replay :: "pool_config \<Rightarrow> pool_event list \<Rightarrow> pool \<Rightarrow> pool option" where
  "replay cfg [] p = Some p"
| "replay cfg (e # es) p =
     (case apply_event cfg e p of None \<Rightarrow> None | Some q \<Rightarrow> replay cfg es q)"

text \<open>No entry of the registry refers to a client that has reported a terminal event.\<close>

definition registry_live :: "pool \<Rightarrow> bool" where
  "registry_live p =
     list_all (\<lambda>entry. \<not> reported (clients p (client (snd entry)))) (connections p)"

text \<open>
  Every entry refers to a client that exists and sits under the id of the node the
  client was created for; and no node id occurs twice.
\<close>

definition registry_owned :: "pool \<Rightarrow> bool" where
  "registry_owned p =
     list_all (\<lambda>entry. client (snd entry) < nclients p
                  \<and> node_id (made_for (clients p (client (snd entry)))) = fst entry)
              (connections p)"

definition registry_distinct :: "pool \<Rightarrow> bool" where
  "registry_distinct p = distinct (map fst (connections p))"


section \<open>Definitions used to state the properties\<close>

subsection \<open>Sample nodes, hosts and networks\<close>

definition node0 :: node where
  "node0 = \<lparr>node_id = ''n1'', node_name = ''edge-1'', node_ip = ''192.0.2.10'',
            ssh_privateKey = [], ssh_password = ''U2FsdGVk'', paths_config = [],
            node_port = 0\<rparr>"









definition ready_net :: "nat \<Rightarrow> conn_outcome" where
  "ready_net i = ConnReady"

text \<open>
  A pool of two sessions at time 200000: one last used at 10000, one at 80000, which is
  exactly the idle ceiling of the singleton ago.
\<close>

definition meta_a :: conn_meta where
  "meta_a = \<lparr>client = 0, nodeId = ''a'', nodeName = ''alpha'', host = ''192.0.2.1'',
             createdAt = 1000, lastUsed = 10000, useCount = 3\<rparr>"

definition meta_b :: conn_meta where
  "meta_b = \<lparr>client = 1, nodeId = ''b'', nodeName = ''beta'', host = ''192.0.2.2'',
             createdAt = 2000, lastUsed = 80000, useCount = 7\<rparr>"

definition two_pool :: pool where
  "two_pool = empty_pool\<lparr>connections := [(''a'', meta_a), (''b'', meta_b)], nclients := 2,
                          connects := 2, clock := 200000\<rparr>"

text \<open>A pooled client whose command never finishes, and one that cannot open a channel.\<close>

definition hanging_answer :: "nat \<Rightarrow> command \<Rightarrow> exec_reply \<times> nat" where
  "hanging_answer c cmd = (ExecStarted [StdoutData ''partial''], 0)"

definition refusing_answer :: "nat \<Rightarrow> command \<Rightarrow> exec_reply \<times> nat" where
  "refusing_answer c cmd = (ExecRefused ''Channel open failure'', 12)"

subsection \<open>Auxiliary notions\<close>






text \<open>The test and the step of the sweep, for one entry.\<close>

definition idle_entry :: "pool_config \<Rightarrow> int \<Rightarrow> string \<times> conn_meta \<Rightarrow> bool" where
  "idle_entry cfg now entry = (now - lastUsed (snd entry) > maxIdleTime cfg)"

definition sweep_step :: "pool_config \<Rightarrow> int \<Rightarrow> string \<times> conn_meta \<Rightarrow> pool \<Rightarrow> pool" where
  "sweep_step cfg now entry q =
     (if idle_entry cfg now entry then removeConnection (fst entry) q else q)"

text \<open>
  The invariant of the registry: no entry refers to a client that has reported a terminal
  event, every entry sits under the id of the node its client was created for, and the
  keys are distinct.
\<close>

definition pool_inv :: "pool \<Rightarrow> bool" where
  "pool_inv p = (registry_live p \<and> registry_owned p \<and> registry_distinct p)"

section \<open>Properties of the transport session\<close>


lemma collect_resolved:
  "first_close evs = Some c \<Longrightarrow>
   collect evs out err =
     Resolved \<lparr>code = c, stdout = out @ stdout_before_close evs,
               stderr = err @ stderr_before_close evs\<rparr>"
  by (induction evs out err rule: collect.induct) simp_all




section \<open>Configuration push with rollback\<close>





section \<open>The arithmetic of the host language\<close>










section \<open>System statistics\<close>











section \<open>Port hopping\<close>














section \<open>Idle sweep of the pool\<close>

lemma cleanup_fold: "cleanup cfg p = fold (sweep_step cfg (clock p)) (connections p) p"
proof -
  have "sweep_step cfg (clock p) =
          (\<lambda>entry q. if clock p - lastUsed (snd entry) > maxIdleTime cfg
                      then removeConnection (fst entry) q else q)"
    by (intro ext) (simp add: sweep_step_def idle_entry_def)
  then show ?thesis by (simp add: cleanup_def)
qed

lemma connections_removeConnection:
  "connections (removeConnection k q) = AList.delete k (connections q)"
proof (cases "map_of (connections q) k")
  case None
  then have "k \<notin> fst ` set (connections q)" by (simp add: map_of_eq_None_iff)
  with None show ?thesis by (simp add: removeConnection_def)
next
  case (Some m)
  then show ?thesis by (simp add: removeConnection_def end_client_def)
qed

lemma removeConnection_ends:
  "map_of (connections q) k = Some m \<Longrightarrow> ended (clients (removeConnection k q) (client m))"
  by (simp add: removeConnection_def end_client_def)

lemma removeConnection_ended_mono:
  "ended (clients q c) \<Longrightarrow> ended (clients (removeConnection k q) c)"
  by (cases "map_of (connections q) k") (simp_all add: removeConnection_def end_client_def)

lemma removeConnection_frame:
  "nclients (removeConnection k q) = nclients q"
  "connects (removeConnection k q) = connects q"
  "sleeps (removeConnection k q) = sleeps q"
  "clock (removeConnection k q) = clock q"
  "writable (clients (removeConnection k q) c) = writable (clients q c)"
  "reported (clients (removeConnection k q) c) = reported (clients q c)"
  "made_for (clients (removeConnection k q) c) = made_for (clients q c)"
  by (cases "map_of (connections q) k"; simp add: removeConnection_def end_client_def)+

lemma sweep_fold_map_of:
  "map_of (connections (fold (sweep_step cfg now) es q)) k =
     (if k \<in> fst ` {e \<in> set es. idle_entry cfg now e} then None else map_of (connections q) k)"
proof (induction es arbitrary: q)
  case Nil
  then show ?case by simp
next
  case (Cons e es)
  let ?K = "fst ` {x \<in> set es. idle_entry cfg now x}"
  show ?case
  proof (cases "idle_entry cfg now e")
    case True
    have step: "fold (sweep_step cfg now) (e # es) q =
                fold (sweep_step cfg now) es (removeConnection (fst e) q)"
      using True by (simp add: sweep_step_def)
    have rm: "map_of (connections (removeConnection (fst e) q)) k =
            (if k = fst e then None else map_of (connections q) k)"
      by (simp add: connections_removeConnection delete_conv')
    have K: "k \<in> fst ` {x \<in> set (e # es). idle_entry cfg now x} \<longleftrightarrow> k = fst e \<or> k \<in> ?K"
      using True by auto
    have "map_of (connections (fold (sweep_step cfg now) es (removeConnection (fst e) q))) k =
            (if k \<in> ?K then None else map_of (connections (removeConnection (fst e) q)) k)"
      by (rule Cons.IH)
    also have "\<dots> = (if k = fst e \<or> k \<in> ?K then None else map_of (connections q) k)"
      unfolding rm by simp
    finally show ?thesis unfolding step K .
  next
    case False
    have step: "fold (sweep_step cfg now) (e # es) q = fold (sweep_step cfg now) es q"
      using False by (simp add: sweep_step_def)
    have K: "k \<in> fst ` {x \<in> set (e # es). idle_entry cfg now x} \<longleftrightarrow> k \<in> ?K"
      using False by auto
    show ?thesis unfolding step K by (rule Cons.IH)
  qed
qed

lemma sweep_fold_ended_mono:
  "ended (clients q c) \<Longrightarrow> ended (clients (fold (sweep_step cfg now) es q) c)"
  by (induction es arbitrary: q) (simp_all add: sweep_step_def removeConnection_ended_mono)

lemma sweep_fold_ends:
  assumes "distinct (map fst es)"
      and "\<And>k m. (k, m) \<in> set es \<Longrightarrow> map_of (connections q) k = Some m"
      and "(k, m) \<in> set es" and "idle_entry cfg now (k, m)"
  shows "ended (clients (fold (sweep_step cfg now) es q) (client m))"
  using assms
proof (induction es arbitrary: q)
  case Nil
  then show ?case by simp
next
  case (Cons e es)
  show ?case
  proof (cases "e = (k, m)")
    case True
    with Cons.prems have "ended (clients (sweep_step cfg now e q) (client m))"
      by (simp add: sweep_step_def removeConnection_ends)
    then show ?thesis by (simp add: sweep_fold_ended_mono)
  next
    case False
    with Cons.prems have mem: "(k, m) \<in> set es" by simp
    have d: "distinct (map fst es)" using Cons.prems(1) by simp
    have keep: "map_of (connections (sweep_step cfg now e q)) k' = Some m'"
      if "(k', m') \<in> set es" for k' m'
    proof -
      from that Cons.prems(1) have "k' \<noteq> fst e" by (auto simp: image_iff)
      moreover from that Cons.prems(2) have "map_of (connections q) k' = Some m'" by simp
      ultimately show ?thesis
        by (simp add: sweep_step_def connections_removeConnection)
    qed
    from Cons.IH [OF d keep mem Cons.prems(4)] show ?thesis by simp
  qed
qed

lemma idle_key_iff:
  assumes dist: "registry_distinct p" and entry: "map_of (connections p) k = Some m"
  shows "k \<in> fst ` {e \<in> set (connections p). idle_entry cfg (clock p) e}
             \<longleftrightarrow> clock p - lastUsed m > maxIdleTime cfg"
proof
  have d: "distinct (map fst (connections p))" using dist by (simp add: registry_distinct_def)
  assume "k \<in> fst ` {e \<in> set (connections p). idle_entry cfg (clock p) e}"
  then obtain m' where "(k, m') \<in> set (connections p)" "idle_entry cfg (clock p) (k, m')"
    by auto
  with entry d show "clock p - lastUsed m > maxIdleTime cfg" by (simp add: idle_entry_def)
next
  from entry have mem: "(k, m) \<in> set (connections p)" by (rule map_of_SomeD)
  assume "clock p - lastUsed m > maxIdleTime cfg"
  then have "idle_entry cfg (clock p) (k, m)" by (simp add: idle_entry_def)
  with mem show "k \<in> fst ` {e \<in> set (connections p). idle_entry cfg (clock p) e}"
    by force
qed


lemma cleanup_no_new: "map_of (connections p) k = None \<Longrightarrow> map_of (connections (cleanup cfg p)) k = None"
  by (simp add: cleanup_fold sweep_fold_map_of)

text \<open>
  Claim C6. After one sweep, an entry of the registry (whose keys are distinct, as those
  of a \<open>Map\<close> are) is gone and its client has been ended if it has been idle for longer
  than \<open>maxIdleTime\<close>, and is still there, unchanged, if it has not.
\<close>

theorem cleanup_sweep:
  assumes dist: "registry_distinct p" and entry: "map_of (connections p) k = Some m"
  shows "(if clock p - lastUsed m > maxIdleTime cfg
          then map_of (connections (cleanup cfg p)) k = None
               \<and> ended (clients (cleanup cfg p) (client m))
          else map_of (connections (cleanup cfg p)) k = Some m)"
proof (cases "clock p - lastUsed m > maxIdleTime cfg")
  case True
  from entry have mem: "(k, m) \<in> set (connections p)" by (rule map_of_SomeD)
  have d: "distinct (map fst (connections p))" using dist by (simp add: registry_distinct_def)
  have "ended (clients (cleanup cfg p) (client m))"
    unfolding cleanup_fold
  proof (rule sweep_fold_ends [OF d _ mem])
    show "map_of (connections p) k' = Some m'" if "(k', m') \<in> set (connections p)" for k' m'
      using that d by simp
    show "idle_entry cfg (clock p) (k, m)" using True by (simp add: idle_entry_def)
  qed
  moreover have "map_of (connections (cleanup cfg p)) k = None"
    using True idle_key_iff [OF dist entry, of cfg]
    by (simp add: cleanup_fold sweep_fold_map_of)
  ultimately show ?thesis using True by simp
next
  case False
  have "map_of (connections (cleanup cfg p)) k = Some m"
    using False entry idle_key_iff [OF dist entry, of cfg]
    by (simp add: cleanup_fold sweep_fold_map_of)
  with False show ?thesis by simp
qed

theorem cleanup_sweep_witness:
  "map_of (connections (cleanup singleton_config two_pool)) ''a'' = None
   \<and> ended (clients (cleanup singleton_config two_pool) 0)
   \<and> map_of (connections (cleanup singleton_config two_pool)) ''b'' = Some meta_b
   \<and> clock two_pool - lastUsed meta_b = maxIdleTime singleton_config"
proof -
  have d: "registry_distinct two_pool" by (simp add: registry_distinct_def two_pool_def)
  have a: "map_of (connections two_pool) ''a'' = Some meta_a"
    and b: "map_of (connections two_pool) ''b'' = Some meta_b"
    by (simp_all add: two_pool_def)
  have ia: "clock two_pool - lastUsed meta_a > maxIdleTime singleton_config"
    by (simp add: two_pool_def meta_a_def singleton_config_def SSHPool_config_def)
  have ib: "clock two_pool - lastUsed meta_b = maxIdleTime singleton_config"
    by (simp add: two_pool_def meta_b_def singleton_config_def SSHPool_config_def)
  have ca: "client meta_a = 0" by (simp add: meta_a_def)
  from cleanup_sweep [OF d a, of singleton_config] cleanup_sweep [OF d b, of singleton_config]
       ia ib ca
  show ?thesis by simp
qed

section \<open>Creating a session\<close>

lemma begin_connect_fields:
  "nclients (begin_connect n p) = Suc (nclients p)"
  "connections (begin_connect n p) = connections p"
  "sleeps (begin_connect n p) = sleeps p"
  "clock (begin_connect n p) = clock p"
  "has_credentials n \<Longrightarrow> connects (begin_connect n p) = Suc (connects p)"
  by (simp_all add: begin_connect_def new_client_def)


lemma createConnection_error_last:
  assumes "has_credentials n" "net (nclients p) = ConnError e" "\<not> r < maxRetries cfg"
  shows "createConnection cfg net n r p =
           (Inl (TransportErr e), on_error n (mark_reported (nclients p) (begin_connect n p)))"
  using assms by (subst createConnection.simps) simp

lemma createConnection_error_retry:
  assumes "has_credentials n" "net (nclients p) = ConnError e" "r < maxRetries cfg"
  shows "createConnection cfg net n r p =
           createConnection cfg net n (r + 1)
             ((on_error n (mark_reported (nclients p) (begin_connect n p)))
                \<lparr>sleeps := sleeps p @ [2 ^ r * 500]\<rparr>)"
  using assms by (subst createConnection.simps) simp

lemma createConnection_ready:
  assumes "has_credentials n" "net (nclients p) = ConnReady"
  shows "createConnection cfg net n r p =
           (Inr (nclients p), on_ready n (nclients p) (sock_open (nclients p) (begin_connect n p)))"
  using assms by (subst createConnection.simps) simp

lemma createConnection_silent:
  assumes "has_credentials n" "net (nclients p) = ConnSilent"
  shows "createConnection cfg net n r p =
           (Inl (ConnectionTimeout (connectTimeout cfg)), end_client (nclients p) (begin_connect n p))"
  using assms by (subst createConnection.simps) simp

lemma createConnection_no_credentials:
  assumes "\<not> has_credentials n"
  shows "createConnection cfg net n r p = (Inl NoCredentials, begin_connect n p)"
  using assms by (subst createConnection.simps) simp






section \<open>Acquiring a session\<close>





lemma getConnection_absent_ready:
  assumes "map_of (connections p) (node_id n) = None" and "has_credentials n"
      and "net (nclients p) = ConnReady"
  shows "getConnection cfg net n p =
           (Inr (nclients p), on_ready n (nclients p) (sock_open (nclients p) (begin_connect n p)))"
  using assms createConnection_ready [where net = net and p = p and n = n]
  by (simp add: getConnection_def)




section \<open>Command execution through the pool\<close>

lemma createConnection_registers:
  "createConnection cfg net n r p = (Inr c, p') \<Longrightarrow>
   \<exists>m. map_of (connections p') (node_id n) = Some m \<and> client m = c"
proof (induction cfg net n r p rule: createConnection.induct)
  case (1 cfg net n retryCount p)
  show ?case
  proof (cases "has_credentials n")
    case False
    with "1.prems" createConnection_no_credentials [of n cfg net retryCount p]
    show ?thesis by simp
  next
    case True
    show ?thesis
    proof (cases "net (nclients p)")
      case ConnReady
      have "createConnection cfg net n retryCount p =
              (Inr (nclients p), on_ready n (nclients p) (sock_open (nclients p) (begin_connect n p)))"
        by (rule createConnection_ready [where net = net and p = p, OF True ConnReady])
      with "1.prems"
      have "c = nclients p" "p' = on_ready n (nclients p) (sock_open (nclients p) (begin_connect n p))"
        by auto
      then show ?thesis by (simp add: on_ready_def update_conv')
    next
      case (ConnError e)
      show ?thesis
      proof (cases "retryCount < maxRetries cfg")
        case more: True
        from "1.prems" createConnection_error_retry [where net = net and p = p and cfg = cfg
            and r = retryCount, OF True ConnError more]
        have "createConnection cfg net n (retryCount + 1)
             ((on_error n (mark_reported (nclients p) (begin_connect n p)))
                \<lparr>sleeps := sleeps p @ [2 ^ retryCount * 500]\<rparr>) = (Inr c, p')"
          by simp
        with "1.IH" True ConnError more show ?thesis by simp
      next
        case False
        with "1.prems" createConnection_error_last [where net = net and p = p and cfg = cfg
            and r = retryCount, OF True ConnError False]
        show ?thesis by simp
      qed
    next
      case ConnSilent
      with "1.prems" createConnection_silent [where net = net and p = p and cfg = cfg
            and r = retryCount, OF True ConnSilent]
      show ?thesis by simp
    qed
  qed
qed

lemma getConnection_registers:
  assumes "getConnection cfg net n p = (Inr c, p1)"
  shows "\<exists>m. map_of (connections p1) (node_id n) = Some m \<and> client m = c"
proof (cases "map_of (connections p) (node_id n)")
  case None
  with assms show ?thesis by (simp add: getConnection_def createConnection_registers)
next
  case (Some m)
  show ?thesis
  proof (cases "writable (clients p (client m))")
    case True
    with assms Some show ?thesis by (auto simp: getConnection_def reuse_def update_conv')
  next
    case False
    with assms Some show ?thesis by (simp add: getConnection_def createConnection_registers)
  qed
qed

lemma first_acquire:
  "getConnection singleton_config ready_net node0 empty_pool =
     (Inr 0, on_ready node0 0 (sock_open 0 (begin_connect node0 empty_pool)))"
proof -
  have a: "map_of (connections empty_pool) (node_id node0) = None" by (simp add: empty_pool_def)
  have c: "has_credentials node0" by (simp add: has_credentials_def node0_def)
  have r: "ready_net (nclients empty_pool) = ConnReady" by (simp add: ready_net_def)
  have z: "nclients empty_pool = 0" by (simp add: empty_pool_def)
  from getConnection_absent_ready [where net = ready_net and p = empty_pool and n = node0
         and cfg = singleton_config, OF a c r]
  show ?thesis unfolding z .
qed

lemma first_acquire_entry:
  "map_of (connections (on_ready node0 0 (sock_open 0 (begin_connect node0 empty_pool)))) ''n1''
     = Some \<lparr>client = 0, nodeId = ''n1'', nodeName = ''edge-1'', host = ''192.0.2.10'',
             createdAt = 0, lastUsed = 0, useCount = 1\<rparr>"
  "\<not> ended (clients (on_ready node0 0 (sock_open 0 (begin_connect node0 empty_pool))) 0)"
  by (simp_all add: on_ready_def sock_open_def begin_connect_def new_client_def empty_pool_def
      node0_def nodeName_of_def has_credentials_def)

text \<open>
  Claim C2, as amended. Once a session is acquired, the pool's \<open>exec\<close> is bounded by the
  timeout (\<open>30000\<close> when none is given): a command that has not completed by then is
  rejected with the timeout error, and the registry is left as the acquisition left it,
  the session still registered. A refusal of the transport to start the command evicts
  the node's entry and ends its client, and is the rejection's error when it arrives
  before the timeout. A command that completes in time resolves with its result.
\<close>

theorem pool_exec_timeout:
  assumes g: "getConnection cfg net n p = (Inr c, p1)"
  shows "(\<forall>evs t. answer c cmd = (ExecStarted evs, t)
            \<and> (first_close evs = None \<or> (if timeout = 0 then 30000 else timeout) \<le> t) \<longrightarrow>
          pool_exec cfg net answer n cmd timeout p
            = (Rejected (ExecTimeout (if timeout = 0 then 30000 else timeout) cmd), p1)
          \<and> (\<exists>m. map_of (connections p1) (node_id n) = Some m \<and> client m = c))
       \<and> (\<forall>err t. answer c cmd = (ExecRefused err, t) \<longrightarrow>
          snd (pool_exec cfg net answer n cmd timeout p) = removeConnection (node_id n) p1
          \<and> map_of (connections (snd (pool_exec cfg net answer n cmd timeout p))) (node_id n) = None
          \<and> ended (clients (snd (pool_exec cfg net answer n cmd timeout p)) c)
          \<and> (t < (if timeout = 0 then 30000 else timeout) \<longrightarrow>
               fst (pool_exec cfg net answer n cmd timeout p) = Rejected (TransportErr err)))
       \<and> (\<forall>evs t k. answer c cmd = (ExecStarted evs, t) \<and> first_close evs = Some k
            \<and> t < (if timeout = 0 then 30000 else timeout) \<longrightarrow>
          pool_exec cfg net answer n cmd timeout p
            = (Resolved \<lparr>code = k, stdout = stdout_before_close evs,
                         stderr = stderr_before_close evs\<rparr>, p1))"
proof -
  from getConnection_registers [OF g]
  obtain m where m: "map_of (connections p1) (node_id n) = Some m" "client m = c" by blast
  have a: "pool_exec cfg net answer n cmd timeout p
            = (Rejected (ExecTimeout (if timeout = 0 then 30000 else timeout) cmd), p1)"
    if "answer c cmd = (ExecStarted evs, t)"
       "first_close evs = None \<or> (if timeout = 0 then 30000 else timeout) \<le> t" for evs t
    using that g by (auto simp: pool_exec_def Let_def)
  have b: "snd (pool_exec cfg net answer n cmd timeout p) = removeConnection (node_id n) p1"
    if "answer c cmd = (ExecRefused err, t)" for err t
    using that g by (simp add: pool_exec_def Let_def)
  have b2: "t < (if timeout = 0 then 30000 else timeout) \<Longrightarrow>
            fst (pool_exec cfg net answer n cmd timeout p) = Rejected (TransportErr err)"
    if "answer c cmd = (ExecRefused err, t)" for err t
    using that g by (simp add: pool_exec_def Let_def)
  have ev: "map_of (connections (removeConnection (node_id n) p1)) (node_id n) = None"
    by (simp add: connections_removeConnection delete_conv')
  have en: "ended (clients (removeConnection (node_id n) p1) c)"
    using removeConnection_ends [OF m(1)] m(2) by simp
  have r: "pool_exec cfg net answer n cmd timeout p
            = (Resolved \<lparr>code = k, stdout = stdout_before_close evs,
                         stderr = stderr_before_close evs\<rparr>, p1)"
    if "answer c cmd = (ExecStarted evs, t)" "first_close evs = Some k"
       "t < (if timeout = 0 then 30000 else timeout)" for evs t k
    using that g collect_resolved [OF that(2), of "[]" "[]"]
    by (simp add: pool_exec_def Let_def)
  show ?thesis
    using a b b2 ev en r m by (intro conjI allI impI) (auto simp del: removeConnection_frame)
qed

theorem pool_exec_timeout_witness:
  "fst (pool_exec singleton_config ready_net refusing_answer node0 (Shell ''uptime'') 0 empty_pool)
     = Rejected (TransportErr ''Channel open failure'')
   \<and> map_of (connections (snd (pool_exec singleton_config ready_net refusing_answer node0
                                   (Shell ''uptime'') 0 empty_pool))) ''n1'' = None
   \<and> ended (clients (snd (pool_exec singleton_config ready_net refusing_answer node0
                              (Shell ''uptime'') 0 empty_pool)) 0)
   \<and> fst (pool_exec singleton_config ready_net hanging_answer node0 (Shell ''sleep 600'') 5000
            empty_pool)
       = Rejected (ExecTimeout 5000 (Shell ''sleep 600''))"
proof -
  have n: "node_id node0 = ''n1''" by (simp add: node0_def)
  from pool_exec_timeout [OF first_acquire, of refusing_answer "Shell ''uptime''" 0]
       pool_exec_timeout [OF first_acquire, of hanging_answer "Shell ''sleep 600''" 5000]
  show ?thesis by (auto simp: refusing_answer_def hanging_answer_def n)
qed

text \<open>
  Claim C2 as stated fails: after a timeout the session is still in the registry and its
  client has not been ended.
\<close>

theorem pool_exec_timeout_keeps_session_counterexample:
  "fst (pool_exec singleton_config ready_net hanging_answer node0 (Shell ''sleep 600'') 0 empty_pool)
     = Rejected (ExecTimeout 30000 (Shell ''sleep 600''))
   \<and> map_of (connections (snd (pool_exec singleton_config ready_net hanging_answer node0
                                   (Shell ''sleep 600'') 0 empty_pool))) ''n1''
       = Some \<lparr>client = 0, nodeId = ''n1'', nodeName = ''edge-1'', host = ''192.0.2.10'',
               createdAt = 0, lastUsed = 0, useCount = 1\<rparr>
   \<and> \<not> ended (clients (snd (pool_exec singleton_config ready_net hanging_answer node0
                                (Shell ''sleep 600'') 0 empty_pool)) 0)"
proof -
  have "pool_exec singleton_config ready_net hanging_answer node0 (Shell ''sleep 600'') 0 empty_pool
        = (Rejected (ExecTimeout 30000 (Shell ''sleep 600'')),
           on_ready node0 0 (sock_open 0 (begin_connect node0 empty_pool)))"
    by (simp add: pool_exec_def first_acquire hanging_answer_def)
  then show ?thesis by (simp add: first_acquire_entry)
qed

section \<open>The registry never holds a dead session\<close>

lemma set_update_subset: "set (AList.update k v xs) \<subseteq> insert (k, v) (set xs)"
  by (induction xs) auto

lemma set_delete: "set (AList.delete k xs) = {e \<in> set xs. fst e \<noteq> k}"
  by (auto simp: AList.delete_eq)

lemma pool_inv_iff:
  "pool_inv p \<longleftrightarrow>
     (\<forall>e \<in> set (connections p).
        \<not> reported (clients p (client (snd e))) \<and> client (snd e) < nclients p
        \<and> node_id (made_for (clients p (client (snd e)))) = fst e)
     \<and> distinct (map fst (connections p))"
  by (auto simp: pool_inv_def registry_live_def registry_owned_def registry_distinct_def
      list_all_iff)

lemma inv_shrink:
  assumes "pool_inv p" and "set (connections q) \<subseteq> set (connections p)"
      and "distinct (map fst (connections q))" and "nclients p \<le> nclients q"
      and "\<And>c. c < nclients p \<Longrightarrow> reported (clients q c) = reported (clients p c)
                                   \<and> made_for (clients q c) = made_for (clients p c)"
  shows "pool_inv q"
  unfolding pool_inv_iff
proof (intro conjI)
  show "\<forall>e \<in> set (connections q).
        \<not> reported (clients q (client (snd e))) \<and> client (snd e) < nclients q
        \<and> node_id (made_for (clients q (client (snd e)))) = fst e"
  proof
    fix e assume "e \<in> set (connections q)"
    with assms(2) have e: "e \<in> set (connections p)" by blast
    with assms(1) have p: "\<not> reported (clients p (client (snd e)))" "client (snd e) < nclients p"
      "node_id (made_for (clients p (client (snd e)))) = fst e"
      by (simp_all add: pool_inv_iff)
    from p assms(4) assms(5) [of "client (snd e)"]
    show "\<not> reported (clients q (client (snd e))) \<and> client (snd e) < nclients q
        \<and> node_id (made_for (clients q (client (snd e)))) = fst e" by simp
  qed
  show "distinct (map fst (connections q))" by (rule assms(3))
qed

lemma inv_removeConnection:
  assumes "pool_inv p"
  shows "pool_inv (removeConnection k p)"
proof (rule inv_shrink [OF assms])
  show "distinct (map fst (connections (removeConnection k p)))"
    using assms by (simp add: pool_inv_iff connections_removeConnection distinct_delete)
qed (auto simp: connections_removeConnection set_delete removeConnection_frame)

lemma inv_sweep_fold: "pool_inv q \<Longrightarrow> pool_inv (fold (sweep_step cfg now) es q)"
  by (induction es arbitrary: q) (simp_all add: sweep_step_def inv_removeConnection)

lemma inv_cleanup: "pool_inv p \<Longrightarrow> pool_inv (cleanup cfg p)"
  by (simp add: cleanup_fold inv_sweep_fold)

lemma inv_begin_connect:
  assumes "pool_inv p"
  shows "pool_inv (begin_connect n p)"
proof (rule inv_shrink [OF assms])
  show "distinct (map fst (connections (begin_connect n p)))"
    using assms by (simp add: pool_inv_iff begin_connect_fields)
qed (auto simp: begin_connect_def new_client_def)

lemma inv_end_client:
  assumes "pool_inv p"
  shows "pool_inv (end_client c p)"
proof (rule inv_shrink [OF assms])
  show "distinct (map fst (connections (end_client c p)))"
    using assms by (simp add: pool_inv_iff end_client_def)
qed (auto simp: end_client_def)

lemma inv_sock_down:
  assumes "pool_inv p"
  shows "pool_inv (p\<lparr>clients := (clients p)(c := (clients p c)\<lparr>writable := False\<rparr>)\<rparr>)"
proof (rule inv_shrink [OF assms])
  show "distinct (map fst (connections
      (p\<lparr>clients := (clients p)(c := (clients p c)\<lparr>writable := False\<rparr>)\<rparr>)))"
    using assms by (simp add: pool_inv_iff)
qed auto

lemma inv_tick: "pool_inv p \<Longrightarrow> pool_inv (p\<lparr>clock := clock p + d\<rparr>)"
  by (simp add: pool_inv_iff)

lemma inv_closeAll: "pool_inv (closeAll p)"
  by (simp add: pool_inv_iff closeAll_def)

lemma inv_ready:
  assumes "pool_inv p" and "c < nclients p" and "\<not> reported (clients p c)"
  shows "pool_inv (on_ready (made_for (clients p c)) c (sock_open c p))"
proof -
  let ?n = "made_for (clients p c)"
  let ?q = "on_ready ?n c (sock_open c p)"
  let ?meta = "\<lparr>client = c, nodeId = node_id ?n, nodeName = nodeName_of ?n, host = node_ip ?n,
            createdAt = clock p, lastUsed = clock p, useCount = 1\<rparr>"
  have conns: "connections ?q = AList.update (node_id ?n) ?meta (connections p)"
    by (simp add: on_ready_def sock_open_def)
  have cl: "reported (clients ?q x) = reported (clients p x)"
           "made_for (clients ?q x) = made_for (clients p x)" "nclients ?q = nclients p" for x
    by (simp_all add: on_ready_def sock_open_def)
  have d: "distinct (map fst (connections ?q))"
    using assms(1) by (simp add: conns pool_inv_iff distinct_update)
  have "\<not> reported (clients ?q (client (snd e))) \<and> client (snd e) < nclients ?q
        \<and> node_id (made_for (clients ?q (client (snd e)))) = fst e"
    if "e \<in> set (connections ?q)" for e
  proof -
    from that have "e = (node_id ?n, ?meta) \<or> e \<in> set (connections p)"
      using set_update_subset [of "node_id ?n" ?meta "connections p"] by (auto simp: conns)
    then show ?thesis
    proof
      assume "e = (node_id ?n, ?meta)"
      then show ?thesis using assms(2,3) by (simp add: cl)
    next
      assume "e \<in> set (connections p)"
      then show ?thesis using assms(1) by (simp add: cl pool_inv_iff)
    qed
  qed
  with d show ?thesis unfolding pool_inv_iff by blast
qed

lemma inv_after_terminal:
  assumes "pool_inv p" and "c < nclients p"
      and conns: "connections q = AList.delete (node_id (made_for (clients p c))) (connections p)"
      and n: "nclients q = nclients p"
      and rep: "\<And>x. x \<noteq> c \<Longrightarrow> reported (clients q x) = reported (clients p x)"
      and mf: "\<And>x. made_for (clients q x) = made_for (clients p x)"
  shows "pool_inv q"
proof -
  have d: "distinct (map fst (connections q))"
    using assms(1) by (simp add: conns pool_inv_iff distinct_delete)
  have "\<not> reported (clients q (client (snd e))) \<and> client (snd e) < nclients q
        \<and> node_id (made_for (clients q (client (snd e)))) = fst e"
    if "e \<in> set (connections q)" for e
  proof -
    from that have e: "e \<in> set (connections p)" "fst e \<noteq> node_id (made_for (clients p c))"
      by (simp_all add: conns set_delete)
    with assms(1) have p: "\<not> reported (clients p (client (snd e)))" "client (snd e) < nclients p"
      "node_id (made_for (clients p (client (snd e)))) = fst e"
      by (simp_all add: pool_inv_iff)
    from p(3) e(2) have "client (snd e) \<noteq> c" by auto
    with p rep mf n show ?thesis by simp
  qed
  with d show ?thesis unfolding pool_inv_iff by blast
qed

lemma inv_error:
  assumes "pool_inv p" and "c < nclients p"
  shows "pool_inv (on_error (made_for (clients p c)) (mark_reported c p))"
  by (rule inv_after_terminal [OF assms]) (simp_all add: on_error_def mark_reported_def)

lemma inv_close:
  assumes "pool_inv p" and "c < nclients p"
  shows "pool_inv (removeConnection (node_id (made_for (clients p c))) (mark_reported c p))"
  by (rule inv_after_terminal [OF assms])
     (simp_all add: connections_removeConnection removeConnection_frame mark_reported_def)

lemma inv_reuse:
  assumes "pool_inv p" and "map_of (connections p) (node_id n) = Some existing"
  shows "pool_inv (reuse n existing p)"
proof -
  let ?m = "existing\<lparr>lastUsed := clock p, useCount := useCount existing + 1\<rparr>"
  let ?q = "reuse n existing p"
  have conns: "connections ?q = AList.update (node_id n) ?m (connections p)"
    by (simp add: reuse_def)
  have cl: "clients ?q = clients p" "nclients ?q = nclients p" by (simp_all add: reuse_def)
  have old: "(node_id n, existing) \<in> set (connections p)"
    using assms(2) by (rule map_of_SomeD)
  have d: "distinct (map fst (connections ?q))"
    using assms(1) by (simp add: conns pool_inv_iff distinct_update)
  have "\<not> reported (clients ?q (client (snd e))) \<and> client (snd e) < nclients ?q
        \<and> node_id (made_for (clients ?q (client (snd e)))) = fst e"
    if "e \<in> set (connections ?q)" for e
  proof -
    from that have "e = (node_id n, ?m) \<or> e \<in> set (connections p)"
      using set_update_subset [of "node_id n" ?m "connections p"] by (auto simp: conns)
    then show ?thesis
    proof
      assume e: "e = (node_id n, ?m)"
      from old assms(1) have "\<not> reported (clients p (client existing))
          \<and> client existing < nclients p
          \<and> node_id (made_for (clients p (client existing))) = node_id n"
        unfolding pool_inv_iff by force
      then show ?thesis by (simp add: e cl)
    next
      assume "e \<in> set (connections p)"
      with assms(1) show ?thesis by (simp add: cl pool_inv_iff)
    qed
  qed
  with d show ?thesis unfolding pool_inv_iff by blast
qed

lemma inv_apply_event:
  assumes "pool_inv p" and "apply_event cfg ev p = Some q"
  shows "pool_inv q"
proof (cases ev)
  case (Reuse n)
  with assms show ?thesis
    by (auto simp: inv_reuse split: option.splits if_splits)
qed (use assms in \<open>auto simp: inv_begin_connect inv_ready inv_error inv_close on_close_def
      on_end_def inv_sock_down inv_removeConnection inv_end_client inv_cleanup inv_closeAll
      inv_tick split: if_splits\<close>)

lemma inv_replay: "pool_inv p \<Longrightarrow> replay cfg evs p = Some q \<Longrightarrow> pool_inv q"
proof (induction evs arbitrary: p)
  case Nil
  then show ?case by simp
next
  case (Cons e es)
  then show ?case by (auto split: option.splits dest: inv_apply_event)
qed

lemma inv_empty: "pool_inv empty_pool"
  by (simp add: pool_inv_iff empty_pool_def)

lemma terminal_removes:
  assumes "apply_event cfg (Error c) p = Some q \<or> apply_event cfg (Close c) p = Some q
           \<or> apply_event cfg (End c) p = Some q"
  shows "map_of (connections q) (node_id (made_for (clients p c))) = None \<and> reported (clients q c)"
  using assms
  by (auto simp: on_error_def on_close_def on_end_def mark_reported_def delete_conv'
      connections_removeConnection removeConnection_frame split: if_splits)

text \<open>
  Claim C5. In every state the pool can reach from the empty pool, no registry entry
  refers to a client that has reported \<open>error\<close>, \<open>close\<close> or \<open>end\<close>; and when a client
  reports one of them, the listener leaves the registry without an entry for the
  client's node id, in a state with the same property.
\<close>

theorem registry_never_stale:
  assumes "replay cfg evs empty_pool = Some p"
  shows "registry_live p
       \<and> (\<forall>c q. apply_event cfg (Error c) p = Some q \<or> apply_event cfg (Close c) p = Some q
                 \<or> apply_event cfg (End c) p = Some q \<longrightarrow>
            map_of (connections q) (node_id (made_for (clients p c))) = None
            \<and> reported (clients q c) \<and> registry_live q)"
proof -
  have inv: "pool_inv p" by (rule inv_replay [OF inv_empty assms])
  then have live: "registry_live p" by (simp add: pool_inv_def)
  have t: "map_of (connections q) (node_id (made_for (clients p c))) = None
            \<and> reported (clients q c) \<and> registry_live q"
    if a: "apply_event cfg (Error c) p = Some q \<or> apply_event cfg (Close c) p = Some q
                 \<or> apply_event cfg (End c) p = Some q" for c q
  proof -
    from a obtain ev where "apply_event cfg ev p = Some q" by blast
    from inv_apply_event [OF inv this] have "registry_live q" by (simp add: pool_inv_def)
    with terminal_removes [OF a] show ?thesis by blast
  qed
  from live t show ?thesis by blast
qed

theorem registry_never_stale_witness:
  "registry_live (the (replay singleton_config [Connect node0, Ready 0] empty_pool))
   \<and> map_of (connections (the (replay singleton_config [Connect node0, Ready 0] empty_pool))) ''n1''
       \<noteq> None
   \<and> map_of (connections (the (replay singleton_config [Connect node0, Ready 0, Close 0]
                                  empty_pool))) ''n1'' = None"
proof -
  let ?b = "begin_connect node0 empty_pool"
  let ?P = "on_ready node0 0 (sock_open 0 ?b)"
  let ?Q = "on_close node0 (mark_reported 0 ?P)"
  have b: "0 < nclients ?b" "\<not> reported (clients ?b 0)" "made_for (clients ?b 0) = node0"
    by (simp_all add: begin_connect_def new_client_def empty_pool_def)
  have R: "replay singleton_config [Connect node0, Ready 0] empty_pool = Some ?P"
    using b by simp
  have P: "0 < nclients ?P" "made_for (clients ?P 0) = node0"
    using b by (simp_all add: on_ready_def sock_open_def)
  have C: "apply_event singleton_config (Close 0) ?P = Some ?Q"
    using P by simp
  have R2: "replay singleton_config [Connect node0, Ready 0, Close 0] empty_pool = Some ?Q"
    using b P by simp
  have e: "map_of (connections ?P) ''n1'' \<noteq> None"
    by (simp add: on_ready_def update_conv' node0_def)
  have n: "node_id node0 = ''n1''" by (simp add: node0_def)
  from registry_never_stale [OF R] C
  have "registry_live ?P" "map_of (connections ?Q) (node_id (made_for (clients ?P 0))) = None"
    by blast+
  then show ?thesis unfolding R R2 using e by (simp add: P n)
qed

end
